theory Spec2Isabelle
  imports Main "HOL-Library.Sublist"
begin

section \<open>The notebook \<^verbatim>\<open>examples/awa.ipynb\<close> over an external framework\<close>

text \<open>
  The notebook is a script: its code cells run top to bottom, and every cell is a
  sequence of calls into libraries that are not part of it (\<^verbatim>\<open>torch\<close>,
  \<^verbatim>\<open>torchvision\<close>, and the package \<^verbatim>\<open>zsl\<close> it imports from the parent
  directory). The model keeps the script and takes the libraries as a parameter:

  \<^item> a Python value is a \<open>val\<close>: the literals the script writes (numbers, strings,
    tuples, a list built by a comprehension, the name of a function passed as an
    argument) and \<open>VObj\<close>, a reference to an object of the framework (a tensor, a
    dataset, a module, an optimizer);
  \<^item> the framework is an \<open>env\<close> over a state \<open>'w\<close> of its own: \<open>call\<close> runs a
    function, constructor or method (it may change the state and may raise),
    \<open>attr\<close> reads an attribute in the current state (it may raise, and leaves the
    state as it is);
  \<^item> a run carries the framework state and a history: one entry for each call and
    each attribute read, with the state it was made in and what it returned;
  \<^item> an exception is a value: the result of a run is \<open>exn + 'a\<close>, and the first
    exception ends the run, as it ends the execution of the cells.

  A call is named by the dotted name the script resolves (\<^verbatim>\<open>zoo\<close> is
  \<^verbatim>\<open>torchvision.models\<close>, \<^verbatim>\<open>F\<close> is \<^verbatim>\<open>torch.nn.functional\<close>); an
  \<^verbatim>\<open>import\<close> is the call \<open>import\<close> of the module's name; a method call
  \<^verbatim>\<open>x.m(a)\<close> is the call \<open>.m\<close> with \<open>x\<close> as first argument, \<^verbatim>\<open>x(a)\<close> is
  \<open>.__call__\<close>, \<^verbatim>\<open>x[i]\<close> is \<open>.__getitem__\<close>, and iterating over a framework
  object (in an unpacking or a comprehension) is the call \<open>.__iter__\<close>, which yields
  the items. Arguments are evaluated left to right, before the call they belong to.
\<close>

datatype val =
    VNone
  | VBool bool
  | VInt int
  | VFloat int int  \<comment> \<open>a float literal: mantissa and decimal exponent, \<^verbatim>\<open>9e-5\<close> is \<open>VFloat 9 (-5)\<close>\<close>
  | VStr string
  | VFun string     \<comment> \<open>a framework function passed as a value, by its dotted name\<close>
  | VTuple "val list"
  | VList "val list"
  | VObj nat

datatype exn =
    ValueError      \<comment> \<open>unpacking a sequence of the wrong length\<close>
  | TypeError       \<comment> \<open>unpacking something that cannot be iterated\<close>
  | Raised string   \<comment> \<open>whatever the framework raises\<close>

type_synonym kwargs = "(string \<times> val) list"

datatype event =
    Call string "val list" kwargs
  | GetAttr val string

record 'w entry =
  ev :: event
  pre :: 'w
  res :: "exn + val"

record 'w env =
  call :: "string \<Rightarrow> val list \<Rightarrow> kwargs \<Rightarrow> 'w \<Rightarrow> (exn + val) \<times> 'w"
  attr :: "'w \<Rightarrow> val \<Rightarrow> string \<Rightarrow> exn + val"

record 'w run =
  world :: 'w
  history :: "'w entry list"

type_synonym ('w, 'a) prog = "'w run \<Rightarrow> (exn + 'a) \<times> 'w run"

subsection \<open>Sequencing, raising, and the two ways into the framework\<close>

definition ret :: "'a \<Rightarrow> ('w, 'a) prog" where
  "ret x = (\<lambda>s. (Inr x, s))"

definition raise :: "exn \<Rightarrow> ('w, 'a) prog" where
  "raise e = (\<lambda>s. (Inl e, s))"

text \<open>One statement after another: an exception of the first ends the run.\<close>

definition bnd :: "('w, 'a) prog \<Rightarrow> ('a \<Rightarrow> ('w, 'b) prog) \<Rightarrow> ('w, 'b) prog" where
  "bnd m f = (\<lambda>s. case m s of (Inl e, s') \<Rightarrow> (Inl e, s') | (Inr x, s') \<Rightarrow> f x s')"

definition ext_call :: "'w env \<Rightarrow> string \<Rightarrow> val list \<Rightarrow> kwargs \<Rightarrow> ('w, val) prog" where
  "ext_call E f args kw = (\<lambda>s.
     case call E f args kw (world s) of
       (r, w') \<Rightarrow>
         (r, \<lparr>world = w',
              history = history s @ [\<lparr>ev = Call f args kw, pre = world s, res = r\<rparr>]\<rparr>))"

definition get_attr :: "'w env \<Rightarrow> val \<Rightarrow> string \<Rightarrow> ('w, val) prog" where
  "get_attr E x a = (\<lambda>s.
     (attr E (world s) x a,
      \<lparr>world = world s,
       history = history s @ [\<lparr>ev = GetAttr x a, pre = world s, res = attr E (world s) x a\<rparr>]\<rparr>))"

definition method_call :: "'w env \<Rightarrow> val \<Rightarrow> string \<Rightarrow> val list \<Rightarrow> kwargs \<Rightarrow> ('w, val) prog" where
  "method_call E x m args kw = ext_call E (CHR ''.'' # m) (x # args) kw"

subsection \<open>The Python the script itself runs\<close>

text \<open>
  Truth of a value in a condition. The script tests two values of the framework, the
  result of \<^verbatim>\<open>torch.cuda.is_available()\<close> and the attribute
  \<^verbatim>\<open>requires_grad\<close>, both booleans there; any other object counts as true.
\<close>

fun truthy :: "val \<Rightarrow> bool" where
  "truthy VNone = False"
| "truthy (VBool b) = b"
| "truthy (VInt i) = (i \<noteq> 0)"
| "truthy (VFloat m e) = (m \<noteq> 0)"
| "truthy (VStr s) = (s \<noteq> [])"
| "truthy (VFun f) = True"
| "truthy (VTuple xs) = (xs \<noteq> [])"
| "truthy (VList xs) = (xs \<noteq> [])"
| "truthy (VObj n) = True"

text \<open>The items of an iterable: a sequence has them, a framework object is asked.\<close>

definition items :: "'w env \<Rightarrow> val \<Rightarrow> ('w, val list) prog" where
  "items E x =
     (case x of
        VTuple xs \<Rightarrow> ret xs
      | VList xs \<Rightarrow> ret xs
      | VStr s \<Rightarrow> ret (map (\<lambda>c. VStr [c]) s)
      | VObj n \<Rightarrow>
          bnd (method_call E x ''__iter__'' [] []) (\<lambda>r.
            case r of
              VTuple xs \<Rightarrow> ret xs
            | VList xs \<Rightarrow> ret xs
            | _ \<Rightarrow> raise TypeError)
      | _ \<Rightarrow> raise TypeError)"

text \<open>\<^verbatim>\<open>a, b = x\<close> and \<^verbatim>\<open>a, b, c = x\<close>.\<close>

definition unpack2 :: "'w env \<Rightarrow> val \<Rightarrow> ('w, val \<times> val) prog" where
  "unpack2 E x =
     bnd (items E x) (\<lambda>xs. case xs of [a, b] \<Rightarrow> ret (a, b) | _ \<Rightarrow> raise ValueError)"

definition unpack3 :: "'w env \<Rightarrow> val \<Rightarrow> ('w, val \<times> val \<times> val) prog" where
  "unpack3 E x =
     bnd (items E x) (\<lambda>xs. case xs of [a, b, c] \<Rightarrow> ret (a, b, c) | _ \<Rightarrow> raise ValueError)"

text \<open>\<^verbatim>\<open>[p for p in ps if p.requires_grad]\<close>, over the items \<open>ps\<close>.\<close>

fun select_trainable :: "'w env \<Rightarrow> val list \<Rightarrow> ('w, val list) prog" where
  "select_trainable E [] = ret []"
| "select_trainable E (p # ps) =
     bnd (get_attr E p ''requires_grad'') (\<lambda>g.
     bnd (select_trainable E ps) (\<lambda>rest.
     ret (if truthy g then p # rest else rest)))"

text \<open>\<^verbatim>\<open>range(n)\<close> and \<^verbatim>\<open>for i in ...: body\<close>.\<close>

definition py_range :: "int \<Rightarrow> int list" where
  "py_range n = map int [0..<nat n]"

fun for_each :: "int list \<Rightarrow> (int \<Rightarrow> ('w, unit) prog) \<Rightarrow> ('w, unit) prog" where
  "for_each [] body = ret ()"
| "for_each (i # is) body = bnd (body i) (\<lambda>_. for_each is body)"

subsection \<open>The code cells, in the order of the file\<close>

text \<open>
  \<^verbatim>\<open>
  import torch
  import torch.nn.functional as F
  import torchvision.models as zoo

  image = torch.randn((1, 3, 224, 224))
  model = zoo.densenet121(pretrained=True)
  feature_vector = F.adaptive_avg_pool2d(model.features(image), (1, 1))
  print('Random image feature vector:', feature_vector.view(-1).size())
  \<close>
\<close>

definition cell_feature_vector :: "'w env \<Rightarrow> ('w, unit) prog" where
  "cell_feature_vector E =
     bnd (ext_call E ''import'' [VStr ''torch''] []) (\<lambda>_.
     bnd (ext_call E ''import'' [VStr ''torch.nn.functional''] []) (\<lambda>_.
     bnd (ext_call E ''import'' [VStr ''torchvision.models''] []) (\<lambda>_.
     bnd (ext_call E ''torch.randn'' [VTuple [VInt 1, VInt 3, VInt 224, VInt 224]] []) (\<lambda>image.
     bnd (ext_call E ''torchvision.models.densenet121'' [] [(''pretrained'', VBool True)]) (\<lambda>model.
     bnd (method_call E model ''features'' [image] []) (\<lambda>fmap.
     bnd (ext_call E ''torch.nn.functional.adaptive_avg_pool2d''
            [fmap, VTuple [VInt 1, VInt 1]] []) (\<lambda>feature_vector.
     bnd (method_call E feature_vector ''view'' [VInt (- 1)] []) (\<lambda>flat.
     bnd (method_call E flat ''size'' [] []) (\<lambda>sz.
     bnd (ext_call E ''print'' [VStr ''Random image feature vector:'', sz] []) (\<lambda>_.
     ret ()))))))))))"

text \<open>
  \<^verbatim>\<open>
  import sys
  from torch.utils.data import DataLoader
  sys.path.append('..')
  import zsl
  \<close>
\<close>

definition cell_imports :: "'w env \<Rightarrow> ('w, unit) prog" where
  "cell_imports E =
     bnd (ext_call E ''import'' [VStr ''sys''] []) (\<lambda>_.
     bnd (ext_call E ''import'' [VStr ''torch.utils.data'', VStr ''DataLoader''] []) (\<lambda>_.
     bnd (ext_call E ''sys.path.append'' [VStr ''..''] []) (\<lambda>_.
     bnd (ext_call E ''import'' [VStr ''zsl''] []) (\<lambda>_.
     ret ()))))"

text \<open>\<^verbatim>\<open>device = torch.device('cuda' if torch.cuda.is_available() else 'cpu')\<close>\<close>

definition cell_device :: "'w env \<Rightarrow> ('w, val) prog" where
  "cell_device E =
     bnd (ext_call E ''torch.cuda.is_available'' [] []) (\<lambda>available.
     ext_call E ''torch.device'' [VStr (if truthy available then ''cuda'' else ''cpu'')] [])"

text \<open>
  \<^verbatim>\<open>
  fe = 'ResNet101'
  ds = zsl.data.AwAFeaturesDataset(
      '../data/AwA2/Animals_with_Attributes2',
      features_type=fe)
  \<close>
\<close>

definition fe :: string where
  "fe = ''ResNet101''"

definition awa_root :: string where
  "awa_root = ''../data/AwA2/Animals_with_Attributes2''"

definition ds_kwargs :: kwargs where
  "ds_kwargs = [(''features_type'', VStr fe)]"

definition cell_ds :: "'w env \<Rightarrow> ('w, val) prog" where
  "cell_ds E = ext_call E ''zsl.data.AwAFeaturesDataset'' [VStr awa_root] ds_kwargs"

text \<open>
  \<^verbatim>\<open>
  features, target, semantic = ds[0]
  print(ds.classes[target])
  print(features.shape)
  \<close>
\<close>

definition cell_first_item :: "'w env \<Rightarrow> val \<Rightarrow> ('w, val \<times> val) prog" where
  "cell_first_item E ds =
     bnd (method_call E ds ''__getitem__'' [VInt 0] []) (\<lambda>item.
     bnd (unpack3 E item) (\<lambda>(features, target, semantic).
     bnd (get_attr E ds ''classes'') (\<lambda>classes.
     bnd (method_call E classes ''__getitem__'' [target] []) (\<lambda>name.
     bnd (ext_call E ''print'' [name] []) (\<lambda>_.
     bnd (get_attr E features ''shape'') (\<lambda>shape.
     bnd (ext_call E ''print'' [shape] []) (\<lambda>_.
     ret (features, semantic))))))))"

text \<open>
  \<^verbatim>\<open>
  train_ds = zsl.data.AwAFeaturesDataset(
      '../data/AwA2/Animals_with_Attributes2',
      features_type=fe,
      load_unseen=False)

  valid_ds = zsl.data.AwAFeaturesDataset(
      '../data/AwA2/Animals_with_Attributes2',
      features_type=fe,
      load_unseen=True,
      load_only_unseen=True)

  train_dl = DataLoader(
      train_ds,
      shuffle=True,
      batch_size=64,
      collate_fn=zsl.utils.collate_image_folder)

  valid_dl = DataLoader(
      valid_ds,
      batch_size=32,
      collate_fn=zsl.utils.collate_image_folder)
  \<close>
\<close>

definition train_ds_kwargs :: kwargs where
  "train_ds_kwargs = [(''features_type'', VStr fe), (''load_unseen'', VBool False)]"

definition valid_ds_kwargs :: kwargs where
  "valid_ds_kwargs =
     [(''features_type'', VStr fe), (''load_unseen'', VBool True),
      (''load_only_unseen'', VBool True)]"

definition train_dl_kwargs :: kwargs where
  "train_dl_kwargs =
     [(''shuffle'', VBool True), (''batch_size'', VInt 64),
      (''collate_fn'', VFun ''zsl.utils.collate_image_folder'')]"

definition valid_dl_kwargs :: kwargs where
  "valid_dl_kwargs =
     [(''batch_size'', VInt 32), (''collate_fn'', VFun ''zsl.utils.collate_image_folder'')]"

definition cell_datasets :: "'w env \<Rightarrow> ('w, val \<times> val \<times> val \<times> val) prog" where
  "cell_datasets E =
     bnd (ext_call E ''zsl.data.AwAFeaturesDataset'' [VStr awa_root] train_ds_kwargs) (\<lambda>train_ds.
     bnd (ext_call E ''zsl.data.AwAFeaturesDataset'' [VStr awa_root] valid_ds_kwargs) (\<lambda>valid_ds.
     bnd (ext_call E ''torch.utils.data.DataLoader'' [train_ds] train_dl_kwargs) (\<lambda>train_dl.
     bnd (ext_call E ''torch.utils.data.DataLoader'' [valid_ds] valid_dl_kwargs) (\<lambda>valid_dl.
     ret (train_ds, valid_ds, train_dl, valid_dl)))))"

text \<open>\<^verbatim>\<open>len(valid_ds), len(train_ds)\<close>\<close>

definition cell_sizes :: "'w env \<Rightarrow> val \<Rightarrow> val \<Rightarrow> ('w, unit) prog" where
  "cell_sizes E train_ds valid_ds =
     bnd (ext_call E ''len'' [valid_ds] []) (\<lambda>_.
     bnd (ext_call E ''len'' [train_ds] []) (\<lambda>_.
     ret ()))"

text \<open>
  \<^verbatim>\<open>
  semantic_unit = zsl.models.LinearSemanticUnit(
      in_features=len(train_ds.attrs),
      out_features=1024)
  visual_fe = zsl.models.Identity(features.size(0))
  \<close>
\<close>

definition cell_units :: "'w env \<Rightarrow> val \<Rightarrow> val \<Rightarrow> ('w, val \<times> val) prog" where
  "cell_units E train_ds features =
     bnd (get_attr E train_ds ''attrs'') (\<lambda>attrs.
     bnd (ext_call E ''len'' [attrs] []) (\<lambda>n_attrs.
     bnd (ext_call E ''zsl.models.LinearSemanticUnit'' []
            [(''in_features'', n_attrs), (''out_features'', VInt 1024)]) (\<lambda>semantic_unit.
     bnd (method_call E features ''size'' [VInt 0] []) (\<lambda>n_features.
     bnd (ext_call E ''zsl.models.Identity'' [n_features] []) (\<lambda>visual_fe.
     ret (semantic_unit, visual_fe))))))"

text \<open>
  \<^verbatim>\<open>
  semantic = torch.FloatTensor(semantic)
  print('Semantic repr shape:', semantic_unit(semantic.unsqueeze(0)).size())
  print('Visual embedding shape:', visual_fe(features.unsqueeze(0)).size())
  \<close>
\<close>

definition cell_unit_shapes :: "'w env \<Rightarrow> val \<Rightarrow> val \<Rightarrow> val \<Rightarrow> val \<Rightarrow> ('w, val) prog" where
  "cell_unit_shapes E features semantic semantic_unit visual_fe =
     bnd (ext_call E ''torch.FloatTensor'' [semantic] []) (\<lambda>semantic'.
     bnd (method_call E semantic' ''unsqueeze'' [VInt 0] []) (\<lambda>s1.
     bnd (method_call E semantic_unit ''__call__'' [s1] []) (\<lambda>s2.
     bnd (method_call E s2 ''size'' [] []) (\<lambda>s3.
     bnd (ext_call E ''print'' [VStr ''Semantic repr shape:'', s3] []) (\<lambda>_.
     bnd (method_call E features ''unsqueeze'' [VInt 0] []) (\<lambda>f1.
     bnd (method_call E visual_fe ''__call__'' [f1] []) (\<lambda>f2.
     bnd (method_call E f2 ''size'' [] []) (\<lambda>f3.
     bnd (ext_call E ''print'' [VStr ''Visual embedding shape:'', f3] []) (\<lambda>_.
     ret semantic')))))))))"

text \<open>
  \<^verbatim>\<open>
  zs_model = zsl.models.ZeroShot(visual_fe, semantic_unit)
  image_embed, semantic_embed = zs_model(
      features.unsqueeze(0), torch.FloatTensor(semantic).unsqueeze(0))
  image_embed.size(), semantic_embed.size()
  \<close>
\<close>

definition cell_model :: "'w env \<Rightarrow> val \<Rightarrow> val \<Rightarrow> val \<Rightarrow> val \<Rightarrow> ('w, val) prog" where
  "cell_model E features semantic semantic_unit visual_fe =
     bnd (ext_call E ''zsl.models.ZeroShot'' [visual_fe, semantic_unit] []) (\<lambda>zs_model.
     bnd (method_call E features ''unsqueeze'' [VInt 0] []) (\<lambda>f1.
     bnd (ext_call E ''torch.FloatTensor'' [semantic] []) (\<lambda>s1.
     bnd (method_call E s1 ''unsqueeze'' [VInt 0] []) (\<lambda>s2.
     bnd (method_call E zs_model ''__call__'' [f1, s2] []) (\<lambda>out.
     bnd (unpack2 E out) (\<lambda>(image_embed, semantic_embed).
     bnd (method_call E image_embed ''size'' [] []) (\<lambda>_.
     bnd (method_call E semantic_embed ''size'' [] []) (\<lambda>_.
     ret zs_model))))))))"

text \<open>\<^verbatim>\<open>zs_model.to(device);\<close>\<close>

definition cell_to_device :: "'w env \<Rightarrow> val \<Rightarrow> val \<Rightarrow> ('w, unit) prog" where
  "cell_to_device E zs_model device =
     bnd (method_call E zs_model ''to'' [device] []) (\<lambda>_. ret ())"

text \<open>
  \<^verbatim>\<open>
  features, labels, semantics = next(iter(train_dl))
  images_embeds, semantics_embeds = zs_model(features.to(device),
                                             semantics.to(device))
  images_embeds.size(), semantics_embeds.size()
  \<close>
\<close>

definition cell_first_batch :: "'w env \<Rightarrow> val \<Rightarrow> val \<Rightarrow> val \<Rightarrow> ('w, unit) prog" where
  "cell_first_batch E zs_model train_dl device =
     bnd (ext_call E ''iter'' [train_dl] []) (\<lambda>it.
     bnd (ext_call E ''next'' [it] []) (\<lambda>batch.
     bnd (unpack3 E batch) (\<lambda>(features, labels, semantics).
     bnd (method_call E features ''to'' [device] []) (\<lambda>f1.
     bnd (method_call E semantics ''to'' [device] []) (\<lambda>s1.
     bnd (method_call E zs_model ''__call__'' [f1, s1] []) (\<lambda>out.
     bnd (unpack2 E out) (\<lambda>(images_embeds, semantics_embeds).
     bnd (method_call E images_embeds ''size'' [] []) (\<lambda>_.
     bnd (method_call E semantics_embeds ''size'' [] []) (\<lambda>_.
     ret ())))))))))"

text \<open>
  \<^verbatim>\<open>
  parameters = [p for p in zs_model.parameters() if p.requires_grad]
  optimizer = torch.optim.AdamW(parameters, 1e-4, weight_decay=9e-5)
  \<close>
\<close>

definition cell_optimizer :: "'w env \<Rightarrow> val \<Rightarrow> ('w, val) prog" where
  "cell_optimizer E zs_model =
     bnd (method_call E zs_model ''parameters'' [] []) (\<lambda>all_parameters.
     bnd (items E all_parameters) (\<lambda>ps.
     bnd (select_trainable E ps) (\<lambda>parameters.
     ext_call E ''torch.optim.AdamW'' [VList parameters, VFloat 1 (- 4)]
       [(''weight_decay'', VFloat 9 (- 5))])))"

text \<open>
  \<^verbatim>\<open>
  EPOCHS = 8
  semantic_repr = torch.FloatTensor(valid_ds.attr_matrix)

  for epoch in range(EPOCHS):
      zsl.engine.train_epoch(
           model=zs_model, dl=train_dl, optimizer=optimizer,
           epoch=epoch, print_freq=300, device=device)

      zsl.engine.evaluate(
          model=zs_model, dl=valid_dl,
          class_representations=semantic_repr, device=device)
  \<close>
\<close>

definition EPOCHS :: int where
  "EPOCHS = 8"

definition epoch_body ::
  "'w env \<Rightarrow> val \<Rightarrow> val \<Rightarrow> val \<Rightarrow> val \<Rightarrow> val \<Rightarrow> val \<Rightarrow> int \<Rightarrow> ('w, unit) prog" where
  "epoch_body E zs_model train_dl valid_dl optimizer device semantic_repr epoch =
     bnd (ext_call E ''zsl.engine.train_epoch'' []
            [(''model'', zs_model), (''dl'', train_dl), (''optimizer'', optimizer),
             (''epoch'', VInt epoch), (''print_freq'', VInt 300), (''device'', device)]) (\<lambda>_.
     bnd (ext_call E ''zsl.engine.evaluate'' []
            [(''model'', zs_model), (''dl'', valid_dl),
             (''class_representations'', semantic_repr), (''device'', device)]) (\<lambda>_.
     ret ()))"

definition cell_train ::
  "'w env \<Rightarrow> val \<Rightarrow> val \<Rightarrow> val \<Rightarrow> val \<Rightarrow> val \<Rightarrow> val \<Rightarrow> ('w, unit) prog" where
  "cell_train E zs_model train_dl valid_dl valid_ds optimizer device =
     bnd (get_attr E valid_ds ''attr_matrix'') (\<lambda>attr_matrix.
     bnd (ext_call E ''torch.FloatTensor'' [attr_matrix] []) (\<lambda>semantic_repr.
     for_each (py_range EPOCHS)
       (epoch_body E zs_model train_dl valid_dl optimizer device semantic_repr)))"

subsection \<open>The whole script\<close>

text \<open>
  Everything before the last cell, returning the variables the last cell reads.
  \<^verbatim>\<open>features\<close> is the first item's feature vector where the two units are built
  and tried; the batch cell rebinds it afterwards. \<^verbatim>\<open>semantic\<close> is rebound by
  the cell that converts it.
\<close>

definition preparation :: "'w env \<Rightarrow> ('w, val \<times> val \<times> val \<times> val \<times> val \<times> val) prog" where
  "preparation E =
     bnd (cell_feature_vector E) (\<lambda>_.
     bnd (cell_imports E) (\<lambda>_.
     bnd (cell_device E) (\<lambda>device.
     bnd (cell_ds E) (\<lambda>ds.
     bnd (cell_first_item E ds) (\<lambda>(features, semantic).
     bnd (cell_datasets E) (\<lambda>(train_ds, valid_ds, train_dl, valid_dl).
     bnd (cell_sizes E train_ds valid_ds) (\<lambda>_.
     bnd (cell_units E train_ds features) (\<lambda>(semantic_unit, visual_fe).
     bnd (cell_unit_shapes E features semantic semantic_unit visual_fe) (\<lambda>semantic'.
     bnd (cell_model E features semantic' semantic_unit visual_fe) (\<lambda>zs_model.
     bnd (cell_to_device E zs_model device) (\<lambda>_.
     bnd (cell_first_batch E zs_model train_dl device) (\<lambda>_.
     bnd (cell_optimizer E zs_model) (\<lambda>optimizer.
     ret (zs_model, train_dl, valid_dl, valid_ds, optimizer, device))))))))))))))"

definition notebook :: "'w env \<Rightarrow> ('w, unit) prog" where
  "notebook E =
     bnd (preparation E) (\<lambda>(zs_model, train_dl, valid_dl, valid_ds, optimizer, device).
     cell_train E zs_model train_dl valid_dl valid_ds optimizer device)"

section \<open>What a run shows\<close>

text \<open>A run of the notebook from a framework state, with nothing in the history yet.\<close>

definition outcome :: "'w env \<Rightarrow> 'w \<Rightarrow> exn + unit" where
  "outcome E w = fst (notebook E \<lparr>world = w, history = []\<rparr>)"

definition trace :: "'w env \<Rightarrow> 'w \<Rightarrow> 'w entry list" where
  "trace E w = history (snd (notebook E \<lparr>world = w, history = []\<rparr>))"

definition failure :: "exn + 'a \<Rightarrow> exn option" where
  "failure r = (case r of Inl e \<Rightarrow> Some e | Inr _ \<Rightarrow> None)"

text \<open>The names of the calls in a list of events, attribute reads left out.\<close>

definition calls :: "event list \<Rightarrow> string list" where
  "calls es = concat (map (\<lambda>e. case e of Call f _ _ \<Rightarrow> [f] | GetAttr _ _ \<Rightarrow> []) es)"

text \<open>
  The stages of the pipeline: the constructors of the datasets, the loaders, the two
  units and the model, and the two functions of the training loop.
\<close>

definition stage_names :: "string list" where
  "stage_names =
     [''zsl.data.AwAFeaturesDataset'', ''torch.utils.data.DataLoader'',
      ''zsl.models.LinearSemanticUnit'', ''zsl.models.Identity'', ''zsl.models.ZeroShot'',
      ''zsl.engine.train_epoch'', ''zsl.engine.evaluate'']"

definition stages :: "'w entry list \<Rightarrow> string list" where
  "stages h = filter (\<lambda>f. f \<in> set stage_names) (calls (map ev h))"

definition preparation_stages :: "string list" where
  "preparation_stages =
     [''zsl.data.AwAFeaturesDataset'', ''zsl.data.AwAFeaturesDataset'',
      ''zsl.data.AwAFeaturesDataset'', ''torch.utils.data.DataLoader'',
      ''torch.utils.data.DataLoader'', ''zsl.models.LinearSemanticUnit'',
      ''zsl.models.Identity'', ''zsl.models.ZeroShot'']"

definition loop_stages :: "string list" where
  "loop_stages = concat (replicate 8 [''zsl.engine.train_epoch'', ''zsl.engine.evaluate''])"

definition pipeline :: "string list" where
  "pipeline = preparation_stages @ loop_stages"

text \<open>The two calls of one pass of the loop, and the sixteen of the eight passes.\<close>

definition epoch_events :: "val \<Rightarrow> val \<Rightarrow> val \<Rightarrow> val \<Rightarrow> val \<Rightarrow> val \<Rightarrow> int \<Rightarrow> event list" where
  "epoch_events zs_model train_dl valid_dl optimizer device semantic_repr epoch =
     [Call ''zsl.engine.train_epoch'' []
        [(''model'', zs_model), (''dl'', train_dl), (''optimizer'', optimizer),
         (''epoch'', VInt epoch), (''print_freq'', VInt 300), (''device'', device)],
      Call ''zsl.engine.evaluate'' []
        [(''model'', zs_model), (''dl'', valid_dl),
         (''class_representations'', semantic_repr), (''device'', device)]]"

definition schedule :: "val \<Rightarrow> val \<Rightarrow> val \<Rightarrow> val \<Rightarrow> val \<Rightarrow> val \<Rightarrow> event list" where
  "schedule zs_model train_dl valid_dl optimizer device semantic_repr =
     concat (map (epoch_events zs_model train_dl valid_dl optimizer device semantic_repr)
       [0, 1, 2, 3, 4, 5, 6, 7])"

text \<open>
  What the calls of the loop were given: the \<^verbatim>\<open>epoch\<close> argument, the
  \<^verbatim>\<open>dl\<close> argument, and the \<^verbatim>\<open>class_representations\<close> of the evaluations.
\<close>

definition loop_arg :: "string \<Rightarrow> event \<Rightarrow> (string \<times> val option) list" where
  "loop_arg k e =
     (case e of
        Call f args kw \<Rightarrow>
          if f = ''zsl.engine.train_epoch'' \<or> f = ''zsl.engine.evaluate''
          then [(f, map_of kw k)] else []
      | GetAttr _ _ \<Rightarrow> [])"

definition loop_calls :: "event list \<Rightarrow> (string \<times> val option) list" where
  "loop_calls es = concat (map (loop_arg ''epoch'') es)"

definition loop_loaders :: "event list \<Rightarrow> (string \<times> val option) list" where
  "loop_loaders es = concat (map (loop_arg ''dl'') es)"

definition epoch_schedule :: "(string \<times> val option) list" where
  "epoch_schedule =
     concat (map (\<lambda>i. [(''zsl.engine.train_epoch'', Some (VInt i)), (''zsl.engine.evaluate'', None)])
       [0, 1, 2, 3, 4, 5, 6, 7])"

definition loader_schedule :: "val \<Rightarrow> val \<Rightarrow> (string \<times> val option) list" where
  "loader_schedule train_dl valid_dl =
     concat (replicate 8
       [(''zsl.engine.train_epoch'', Some train_dl), (''zsl.engine.evaluate'', Some valid_dl)])"

definition evaluate_repr :: "event \<Rightarrow> val option list" where
  "evaluate_repr e =
     (case e of
        Call f args kw \<Rightarrow>
          if f = ''zsl.engine.evaluate'' then [map_of kw ''class_representations''] else []
      | GetAttr _ _ \<Rightarrow> [])"

definition evaluate_reprs :: "event list \<Rightarrow> val option list" where
  "evaluate_reprs es = concat (map evaluate_repr es)"


text \<open>An event of the history that returned a value.\<close>

definition returned :: "'w entry list \<Rightarrow> event \<Rightarrow> val \<Rightarrow> bool" where
  "returned h e v = list_ex (\<lambda>a. ev a = e \<and> res a = Inr v) h"

text \<open>
  How the objects of the preparation hang together: each loader is built on its
  dataset and each dataset with its own flags; the two units are built and the model
  wraps both; the optimizer is built from a list of parameters.
\<close>

definition loaders_wired :: "'w entry list \<Rightarrow> val \<Rightarrow> val \<Rightarrow> val \<Rightarrow> val \<Rightarrow> bool" where
  "loaders_wired h train_ds valid_ds train_dl valid_dl \<longleftrightarrow>
     returned h (Call ''zsl.data.AwAFeaturesDataset'' [VStr awa_root] train_ds_kwargs) train_ds \<and>
     returned h (Call ''zsl.data.AwAFeaturesDataset'' [VStr awa_root] valid_ds_kwargs) valid_ds \<and>
     returned h (Call ''torch.utils.data.DataLoader'' [train_ds] train_dl_kwargs) train_dl \<and>
     returned h (Call ''torch.utils.data.DataLoader'' [valid_ds] valid_dl_kwargs) valid_dl"

definition units_built :: "'w entry list \<Rightarrow> val \<Rightarrow> val \<Rightarrow> bool" where
  "units_built h semantic_unit visual_fe \<longleftrightarrow>
     (\<exists>n_attrs n_features.
        returned h (Call ''zsl.models.LinearSemanticUnit'' []
          [(''in_features'', n_attrs), (''out_features'', VInt 1024)]) semantic_unit \<and>
        returned h (Call ''zsl.models.Identity'' [n_features] []) visual_fe)"

definition model_wrapped :: "'w entry list \<Rightarrow> val \<Rightarrow> val \<Rightarrow> val \<Rightarrow> bool" where
  "model_wrapped h semantic_unit visual_fe zs_model \<longleftrightarrow>
     returned h (Call ''zsl.models.ZeroShot'' [visual_fe, semantic_unit] []) zs_model"

definition optimizer_built :: "'w entry list \<Rightarrow> val \<Rightarrow> bool" where
  "optimizer_built h optimizer \<longleftrightarrow>
     (\<exists>ps. returned h (Call ''torch.optim.AdamW'' [VList ps, VFloat 1 (- 4)]
        [(''weight_decay'', VFloat 9 (- 5))]) optimizer)"

definition prepared :: "'w entry list \<Rightarrow> val \<Rightarrow> val \<Rightarrow> val \<Rightarrow> val \<Rightarrow> val \<Rightarrow> bool" where
  "prepared h zs_model train_dl valid_dl valid_ds optimizer \<longleftrightarrow>
     (\<exists>train_ds semantic_unit visual_fe.
        loaders_wired h train_ds valid_ds train_dl valid_dl \<and>
        units_built h semantic_unit visual_fe \<and>
        model_wrapped h semantic_unit visual_fe zs_model \<and>
        optimizer_built h optimizer)"

subsection \<open>Properties of a program that compose along its statements\<close>

text \<open>
  \<open>emits m ns ns'\<close>: of the stages \<open>ns\<close> still to come, a run of \<open>m\<close> that returns
  has passed a first part and left \<open>ns'\<close>; a run that raises has passed some of them,
  in their order.
\<close>

definition emits :: "('w, 'a) prog \<Rightarrow> string list \<Rightarrow> string list \<Rightarrow> bool" where
  "emits m ns ns' \<longleftrightarrow>
     (\<forall>s. \<exists>k. history (snd (m s)) = history s @ k \<and>
        (case fst (m s) of
           Inr _ \<Rightarrow> ns = stages k @ ns'
         | Inl _ \<Rightarrow> prefix (stages k) ns))"

text \<open>
  \<open>follows m es\<close>: a run of \<open>m\<close> adds the events \<open>es\<close> to the history, all of them
  when it returns and the first of them when it raises.
\<close>

definition follows :: "('w, 'a) prog \<Rightarrow> event list \<Rightarrow> bool" where
  "follows m es \<longleftrightarrow>
     (\<forall>s. \<exists>k. history (snd (m s)) = history s @ k \<and> prefix (map ev k) es \<and>
        (\<forall>x. fst (m s) = Inr x \<longrightarrow> map ev k = es))"

text \<open>
  \<open>every_run Q m\<close>: every run of \<open>m\<close> only adds to the history, and \<open>Q\<close> holds of
  what it adds and of the exception it ends with, if any. A \<open>sequential\<close> property
  passes from the statements to their sequence.
\<close>

definition every_run :: "('w entry list \<Rightarrow> exn option \<Rightarrow> bool) \<Rightarrow> ('w, 'a) prog \<Rightarrow> bool" where
  "every_run Q m \<longleftrightarrow>
     (\<forall>s. \<exists>k. history (snd (m s)) = history s @ k \<and> Q k (failure (fst (m s))))"

definition sequential :: "('w entry list \<Rightarrow> exn option \<Rightarrow> bool) \<Rightarrow> bool" where
  "sequential Q \<longleftrightarrow>
     (\<forall>r. Q [] r) \<and> (\<forall>k1 k2 r. Q k1 None \<longrightarrow> Q k2 r \<longrightarrow> Q (k1 @ k2) r)"

text \<open>An entry that raised is the last one, and its exception is the one of the run.\<close>

definition stops_at_raise :: "'w entry list \<Rightarrow> exn option \<Rightarrow> bool" where
  "stops_at_raise k r \<longleftrightarrow>
     (\<forall>i e. i < length k \<longrightarrow> res (k ! i) = Inl e \<longrightarrow> Suc i = length k \<and> r = Some e)"



section \<open>Two frameworks to run the notebook on\<close>

text \<open>
  A framework whose state counts the calls made: every call returns a fresh object,
  but for the few whose result the script takes apart or tests. The model has three
  parameters, the second of them frozen.
\<close>

definition demo_call :: "string \<Rightarrow> val list \<Rightarrow> kwargs \<Rightarrow> nat \<Rightarrow> (exn + val) \<times> nat" where
  "demo_call f args kw w =
     (if f = ''.__getitem__'' then
        (case args of
           [VList xs, VInt i] \<Rightarrow>
             if 0 \<le> i \<and> nat i < length xs then (Inr (xs ! nat i), Suc w)
             else (Inl (Raised ''IndexError''), Suc w)
         | _ \<Rightarrow> (Inr (VTuple [VObj w, VInt 0, VObj (w + 100)]), Suc w))
      else if f = ''next'' then (Inr (VTuple [VObj w, VObj (w + 100), VObj (w + 200)]), Suc w)
      else if f = ''.__call__'' then (Inr (VTuple [VObj w, VObj (w + 100)]), Suc w)
      else if f = ''.parameters'' then (Inr (VList [VObj 1000, VObj 1001, VObj 1002]), Suc w)
      else if f = ''torch.cuda.is_available'' then (Inr (VBool False), Suc w)
      else if f = ''len'' then (Inr (VInt 85), Suc w)
      else if f = ''.size'' then (Inr (VInt 2048), Suc w)
      else if f = ''print'' then (Inr VNone, Suc w)
      else (Inr (VObj w), Suc w))"

definition demo_attr :: "nat \<Rightarrow> val \<Rightarrow> string \<Rightarrow> exn + val" where
  "demo_attr w x a =
     (if a = ''requires_grad'' then Inr (VBool (x \<noteq> VObj 1001))
      else if a = ''classes'' then Inr (VList [VStr ''antelope'', VStr ''zebra''])
      else Inr (VObj (w + 500)))"

definition demo :: "nat env" where
  "demo = \<lparr>call = demo_call, attr = demo_attr\<rparr>"

text \<open>The same framework, running out of memory in the third epoch of training.\<close>

definition faulty_call :: "string \<Rightarrow> val list \<Rightarrow> kwargs \<Rightarrow> nat \<Rightarrow> (exn + val) \<times> nat" where
  "faulty_call f args kw w =
     (if f = ''zsl.engine.train_epoch'' \<and> map_of kw ''epoch'' = Some (VInt 2)
      then (Inl (Raised ''CUDA out of memory''), w)
      else demo_call f args kw w)"

definition faulty :: "nat env" where
  "faulty = \<lparr>call = faulty_call, attr = demo_attr\<rparr>"

section \<open>Lemmas\<close>

subsection \<open>Stages of a program\<close>

lemma stages_Nil [simp]: "stages [] = []"
  by (simp add: stages_def calls_def)

lemma stages_append [simp]: "stages (h @ k) = stages h @ stages k"
  by (simp add: stages_def calls_def)

lemma emits_ret: "emits (ret x) ns ns"
  by (simp add: emits_def ret_def)

lemma emits_raise: "emits (raise e) ns ns'"
  by (simp add: emits_def raise_def)

lemma emits_bnd:
  assumes "emits m ns ns1" and "\<And>x. emits (f x) ns1 ns2"
  shows "emits (bnd m f) ns ns2"
  unfolding emits_def
proof
  fix s
  from assms(1) obtain k1 where k1: "history (snd (m s)) = history s @ k1"
    and r1: "case fst (m s) of Inr _ \<Rightarrow> ns = stages k1 @ ns1 | Inl _ \<Rightarrow> prefix (stages k1) ns"
    unfolding emits_def by blast
  show "\<exists>k. history (snd (bnd m f s)) = history s @ k \<and>
        (case fst (bnd m f s) of Inr _ \<Rightarrow> ns = stages k @ ns2 | Inl _ \<Rightarrow> prefix (stages k) ns)"
  proof (cases "m s")
    case (Pair r s1)
    show ?thesis
    proof (cases r)
      case (Inl e)
      with Pair k1 r1 show ?thesis by (auto simp: bnd_def)
    next
      case (Inr x)
      from assms(2) [of x] obtain k2 where k2: "history (snd (f x s1)) = history s1 @ k2"
        and r2: "case fst (f x s1) of Inr _ \<Rightarrow> ns1 = stages k2 @ ns2 | Inl _ \<Rightarrow> prefix (stages k2) ns1"
        unfolding emits_def by blast
      from Pair Inr k1 r1 have a: "history s1 = history s @ k1" "ns = stages k1 @ ns1" by auto
      have "history (snd (bnd m f s)) = history s @ (k1 @ k2)"
        using Pair Inr k2 a by (simp add: bnd_def)
      moreover have "case fst (bnd m f s) of Inr _ \<Rightarrow> ns = stages (k1 @ k2) @ ns2
                     | Inl _ \<Rightarrow> prefix (stages (k1 @ k2)) ns"
        using Pair Inr r2 a by (auto simp: bnd_def split: sum.splits)
      ultimately show ?thesis by blast
    qed
  qed
qed

lemma emits_stage:
  "f \<in> set stage_names \<Longrightarrow> emits (ext_call E f args kw) (f # ns) ns"
  by (auto simp: emits_def ext_call_def stages_def calls_def split: prod.splits sum.splits)

lemma emits_other:
  "f \<notin> set stage_names \<Longrightarrow> emits (ext_call E f args kw) ns ns"
  by (auto simp: emits_def ext_call_def stages_def calls_def split: prod.splits sum.splits)

lemma emits_method: "emits (method_call E x m args kw) ns ns"
  unfolding method_call_def by (rule emits_other) (simp add: stage_names_def)

lemma emits_attr: "emits (get_attr E x a) ns ns"
  by (auto simp: emits_def get_attr_def stages_def calls_def split: sum.splits)

lemma emits_prod: "(\<And>a b. emits (g a b) ns ns') \<Longrightarrow> emits (case x of (a, b) \<Rightarrow> g a b) ns ns'"
  by (cases x) simp

lemma emits_items: "emits (items E x) ns ns"
  unfolding items_def
  by (cases x) (auto intro!: emits_ret emits_raise emits_bnd [OF emits_method] split: val.splits)

lemma emits_unpack2: "emits (unpack2 E x) ns ns"
  unfolding unpack2_def
  by (rule emits_bnd [OF emits_items]) (auto intro: emits_ret emits_raise split: list.splits)

lemma emits_unpack3: "emits (unpack3 E x) ns ns"
  unfolding unpack3_def
  by (rule emits_bnd [OF emits_items]) (auto intro: emits_ret emits_raise split: list.splits)

lemma emits_select: "emits (select_trainable E ps) ns ns"
proof (induction ps)
  case Nil
  show ?case by (simp add: emits_ret)
next
  case (Cons p ps)
  show ?case
    unfolding select_trainable.simps
    by (rule emits_bnd [OF emits_attr], rule emits_bnd [OF Cons.IH], rule emits_ret)
qed

lemmas emits_rules =
  emits_bnd emits_ret emits_raise emits_stage emits_method emits_attr emits_prod
  emits_items emits_unpack2 emits_unpack3 emits_select emits_other

lemmas cell_defs =
  cell_feature_vector_def cell_imports_def cell_device_def cell_ds_def cell_first_item_def
  cell_datasets_def cell_sizes_def cell_units_def cell_unit_shapes_def cell_model_def
  cell_to_device_def cell_first_batch_def cell_optimizer_def

lemma emits_preparation: "emits (preparation E) preparation_stages []"
  unfolding preparation_def cell_defs preparation_stages_def
  apply (rule emits_rules | simp add: stage_names_def)+
  done

lemma preparation_stages_run:
  "\<exists>k. history (snd (preparation E s)) = history s @ k \<and> prefix (stages k) preparation_stages \<and>
     (\<forall>x. fst (preparation E s) = Inr x \<longrightarrow> stages k = preparation_stages)"
  using emits_preparation [of E] unfolding emits_def
  apply (elim allE [of _ s])
  apply (erule exE)
  subgoal for k
    by (rule exI [of _ k]) (auto split: sum.splits)
  done

subsection \<open>Properties of every run\<close>

lemma every_ret: "sequential Q \<Longrightarrow> every_run Q (ret x)"
  by (simp add: every_run_def sequential_def ret_def)

lemma every_raise: "sequential Q \<Longrightarrow> every_run Q (raise e)"
  by (simp add: every_run_def sequential_def raise_def)

lemma every_bnd:
  assumes Q: "sequential Q" and m: "every_run Q m" and f: "\<And>x. every_run Q (f x)"
  shows "every_run Q (bnd m f)"
  unfolding every_run_def
proof
  fix s
  from m obtain k1 where k1: "history (snd (m s)) = history s @ k1"
    and q1: "Q k1 (failure (fst (m s)))"
    unfolding every_run_def by blast
  show "\<exists>k. history (snd (bnd m f s)) = history s @ k \<and> Q k (failure (fst (bnd m f s)))"
  proof (cases "m s")
    case (Pair r s1)
    show ?thesis
    proof (cases r)
      case (Inl e)
      with Pair k1 q1 show ?thesis by (auto simp: bnd_def failure_def)
    next
      case (Inr x)
      from f [of x] obtain k2 where k2: "history (snd (f x s1)) = history s1 @ k2"
        and q2: "Q k2 (failure (fst (f x s1)))"
        unfolding every_run_def by blast
      from Pair Inr k1 q1 have a: "history s1 = history s @ k1" "Q k1 None"
        by (auto simp: failure_def)
      have "history (snd (bnd m f s)) = history s @ (k1 @ k2)"
        using Pair Inr k2 a by (simp add: bnd_def)
      moreover have "Q (k1 @ k2) (failure (fst (bnd m f s)))"
        using Q a(2) q2 Pair Inr by (simp add: sequential_def bnd_def)
      ultimately show ?thesis by blast
    qed
  qed
qed

lemma every_prod:
  "(\<And>a b. every_run Q (g a b)) \<Longrightarrow> every_run Q (case x of (a, b) \<Rightarrow> g a b)"
  by (cases x) simp

lemma every_call:
  "(\<And>w. Q [\<lparr>ev = Call f args kw, pre = w, res = fst (call E f args kw w)\<rparr>]
          (failure (fst (call E f args kw w)))) \<Longrightarrow>
   every_run Q (ext_call E f args kw)"
proof -
  assume a: "\<And>w. Q [\<lparr>ev = Call f args kw, pre = w, res = fst (call E f args kw w)\<rparr>]
          (failure (fst (call E f args kw w)))"
  show ?thesis
    unfolding every_run_def
  proof
    fix s
    show "\<exists>k. history (snd (ext_call E f args kw s)) = history s @ k \<and>
             Q k (failure (fst (ext_call E f args kw s)))"
      using a [of "world s"] by (cases "call E f args kw (world s)") (simp add: ext_call_def)
  qed
qed

lemma every_attr:
  "(\<And>w. Q [\<lparr>ev = GetAttr x a, pre = w, res = attr E w x a\<rparr>] (failure (attr E w x a))) \<Longrightarrow>
   every_run Q (get_attr E x a)"
  by (auto simp: every_run_def get_attr_def)

lemma every_method:
  "(\<And>w. Q [\<lparr>ev = Call (CHR ''.'' # m) (x # args) kw, pre = w,
            res = fst (call E (CHR ''.'' # m) (x # args) kw w)\<rparr>]
          (failure (fst (call E (CHR ''.'' # m) (x # args) kw w)))) \<Longrightarrow>
   every_run Q (method_call E x m args kw)"
  unfolding method_call_def by (rule every_call)

lemma every_items:
  assumes "sequential Q"
    and "\<And>w. Q [\<lparr>ev = Call ''.__iter__'' [x] [], pre = w,
            res = fst (call E ''.__iter__'' [x] [] w)\<rparr>]
          (failure (fst (call E ''.__iter__'' [x] [] w)))"
  shows "every_run Q (items E x)"
  unfolding items_def
  using assms
  by (cases x) (auto intro!: every_ret every_raise every_bnd every_method split: val.splits)

lemma every_for_each:
  assumes "sequential Q" and "\<And>i. every_run Q (body i)"
  shows "every_run Q (for_each is body)"
  by (induction "is") (auto intro!: every_ret every_bnd assms)

lemma every_select:
  assumes "sequential Q"
    and "\<And>w p. Q [\<lparr>ev = GetAttr p ''requires_grad'', pre = w, res = attr E w p ''requires_grad''\<rparr>]
           (failure (attr E w p ''requires_grad''))"
  shows "every_run Q (select_trainable E ps)"
  by (induction ps) (auto intro!: every_ret every_bnd every_attr assms)

lemma every_run_grows:
  assumes "every_run Q m" and "m s = (r, s')"
  obtains k where "history s' = history s @ k"
  using assms unfolding every_run_def by (metis snd_conv)

lemma every_run_trace:
  assumes "every_run Q (notebook E)"
  shows "Q (trace E w) (failure (outcome E w))"
  using assms unfolding every_run_def trace_def outcome_def
  by (auto dest!: spec [of _ "\<lparr>world = w, history = []\<rparr>"])

subsection \<open>No statement runs after an exception\<close>

lemma sequential_stops: "sequential stops_at_raise"
  unfolding sequential_def stops_at_raise_def
proof (intro conjI allI impI)
  fix k1 k2 :: "'a entry list" and r i e
  assume k1: "\<forall>i e. i < length k1 \<longrightarrow> res (k1 ! i) = Inl e \<longrightarrow> Suc i = length k1 \<and> None = Some e"
    and k2: "\<forall>i e. i < length k2 \<longrightarrow> res (k2 ! i) = Inl e \<longrightarrow> Suc i = length k2 \<and> r = Some e"
    and i: "i < length (k1 @ k2)" and e: "res ((k1 @ k2) ! i) = Inl e"
  have late: "\<not> i < length k1"
    using k1 e by (auto simp: nth_append)
  then have "i - length k1 < length k2" and "res (k2 ! (i - length k1)) = Inl e"
    using i e by (simp_all add: nth_append)
  with k2 have len: "Suc (i - length k1) = length k2" and r: "r = Some e"
    by blast+
  from len late show "Suc i = length (k1 @ k2)" by simp
  from r show "r = Some e" .
qed simp_all

lemma stops_single: "stops_at_raise [\<lparr>ev = x, pre = w, res = r\<rparr>] (failure r)"
  by (auto simp: stops_at_raise_def failure_def split: sum.splits)

lemmas stops_rules =
  every_bnd [OF sequential_stops] every_ret [OF sequential_stops]
  every_raise [OF sequential_stops] every_prod
  every_call [where Q = stops_at_raise, OF stops_single]
  every_method [where Q = stops_at_raise, OF stops_single]
  every_attr [where Q = stops_at_raise, OF stops_single]

lemma stops_items: "every_run stops_at_raise (items E x)"
  by (rule every_items [OF sequential_stops stops_single])

lemma stops_unpack2: "every_run stops_at_raise (unpack2 E x)"
  unfolding unpack2_def
  by (rule every_bnd [OF sequential_stops stops_items])
     (auto intro!: stops_rules split: list.splits)

lemma stops_unpack3: "every_run stops_at_raise (unpack3 E x)"
  unfolding unpack3_def
  by (rule every_bnd [OF sequential_stops stops_items])
     (auto intro!: stops_rules split: list.splits)

lemma stops_select: "every_run stops_at_raise (select_trainable E ps)"
  by (rule every_select [OF sequential_stops stops_single])

lemma stops_for_each:
  "(\<And>i. every_run stops_at_raise (body i)) \<Longrightarrow> every_run stops_at_raise (for_each is body)"
  by (rule every_for_each [OF sequential_stops])

lemma stops_cells:
  shows "every_run stops_at_raise (cell_feature_vector E)"
    and "every_run stops_at_raise (cell_imports E)"
    and "every_run stops_at_raise (cell_device E)"
    and "every_run stops_at_raise (cell_ds E)"
    and "every_run stops_at_raise (cell_first_item E ds)"
    and "every_run stops_at_raise (cell_sizes E train_ds valid_ds)"
    and "every_run stops_at_raise (cell_unit_shapes E features semantic semantic_unit visual_fe)"
    and "every_run stops_at_raise (cell_to_device E zs_model device)"
    and "every_run stops_at_raise (cell_first_batch E zs_model train_dl device)"
  unfolding cell_defs
  by (intro stops_rules stops_items stops_unpack2 stops_unpack3 stops_select)+

lemma stops_notebook: "every_run stops_at_raise (notebook E)"
  unfolding notebook_def preparation_def cell_defs cell_train_def epoch_body_def
  by (intro stops_rules stops_items stops_unpack2 stops_unpack3 stops_select stops_for_each)

subsection \<open>The events of the training loop\<close>

lemma follows_ret: "follows (ret x) []"
  by (simp add: follows_def ret_def)

lemma follows_call: "follows (ext_call E f args kw) [Call f args kw]"
  by (auto simp: follows_def ext_call_def split: prod.splits)

lemma follows_bnd:
  assumes m: "follows m es1" and f: "\<And>x. follows (f x) es2"
  shows "follows (bnd m f) (es1 @ es2)"
  unfolding follows_def
proof
  fix s
  from m obtain k1 where k1: "history (snd (m s)) = history s @ k1"
    and p1: "prefix (map ev k1) es1" and r1: "\<forall>x. fst (m s) = Inr x \<longrightarrow> map ev k1 = es1"
    unfolding follows_def by blast
  show "\<exists>k. history (snd (bnd m f s)) = history s @ k \<and> prefix (map ev k) (es1 @ es2) \<and>
          (\<forall>x. fst (bnd m f s) = Inr x \<longrightarrow> map ev k = es1 @ es2)"
  proof (cases "m s")
    case (Pair r s1)
    show ?thesis
    proof (cases r)
      case (Inl e)
      with Pair k1 p1 show ?thesis by (auto simp: bnd_def)
    next
      case (Inr x)
      from f [of x] obtain k2 where k2: "history (snd (f x s1)) = history s1 @ k2"
        and p2: "prefix (map ev k2) es2" and r2: "\<forall>y. fst (f x s1) = Inr y \<longrightarrow> map ev k2 = es2"
        unfolding follows_def by blast
      from Pair Inr k1 r1 have a: "history s1 = history s @ k1" "map ev k1 = es1" by auto
      have "history (snd (bnd m f s)) = history s @ (k1 @ k2)"
        using Pair Inr k2 a by (simp add: bnd_def)
      moreover have "prefix (map ev (k1 @ k2)) (es1 @ es2)"
        using a p2 by simp
      moreover have "\<forall>y. fst (bnd m f s) = Inr y \<longrightarrow> map ev (k1 @ k2) = es1 @ es2"
        using Pair Inr r2 a by (simp add: bnd_def)
      ultimately show ?thesis by blast
    qed
  qed
qed

lemma follows_epoch_body:
  "follows (epoch_body E zs tdl vdl opt dev v i) (epoch_events zs tdl vdl opt dev v i)"
proof -
  have "follows (epoch_body E zs tdl vdl opt dev v i)
          ([Call ''zsl.engine.train_epoch'' []
              [(''model'', zs), (''dl'', tdl), (''optimizer'', opt),
               (''epoch'', VInt i), (''print_freq'', VInt 300), (''device'', dev)]] @
           [Call ''zsl.engine.evaluate'' []
              [(''model'', zs), (''dl'', vdl),
               (''class_representations'', v), (''device'', dev)]] @ [])"
    unfolding epoch_body_def by (intro follows_bnd follows_call follows_ret)
  then show ?thesis by (simp add: epoch_events_def)
qed

lemma follows_for_each:
  assumes "\<And>i. follows (body i) (es i)"
  shows "follows (for_each is body) (concat (map es is))"
proof (induction "is")
  case Nil
  show ?case by (simp add: follows_ret)
next
  case (Cons i "is")
  show ?case
    using follows_bnd [OF assms [of i], of "\<lambda>_. for_each is body", OF Cons.IH]
    by simp
qed

lemma py_range_EPOCHS: "py_range EPOCHS = [0, 1, 2, 3, 4, 5, 6, 7]"
  by (simp add: py_range_def EPOCHS_def upt_rec)

lemma follows_loop:
  "follows (for_each (py_range EPOCHS) (epoch_body E zs tdl vdl opt dev v))
     (schedule zs tdl vdl opt dev v)"
  unfolding schedule_def py_range_EPOCHS [symmetric]
  by (rule follows_for_each) (rule follows_epoch_body)

lemma cell_train_run:
  "\<exists>a k. history (snd (cell_train E zs tdl vdl vds opt dev s)) = history s @ a # k \<and>
     ev a = GetAttr vds ''attr_matrix'' \<and>
     (case res a of
        Inl e \<Rightarrow> k = [] \<and> fst (cell_train E zs tdl vdl vds opt dev s) = Inl e
      | Inr am \<Rightarrow>
          (\<exists>f l. k = f # l \<and> ev f = Call ''torch.FloatTensor'' [am] [] \<and>
             (case res f of
                Inl e \<Rightarrow> l = [] \<and> fst (cell_train E zs tdl vdl vds opt dev s) = Inl e
              | Inr v \<Rightarrow>
                  prefix (map ev l) (schedule zs tdl vdl opt dev v) \<and>
                  (fst (cell_train E zs tdl vdl vds opt dev s) = Inr () \<longrightarrow>
                     map ev l = schedule zs tdl vdl opt dev v))))"
proof (cases "attr E (world s) vds ''attr_matrix''")
  case (Inl e)
  then show ?thesis
    by (simp add: cell_train_def bnd_def get_attr_def)
next
  case (Inr am)
  define s1 where "s1 = \<lparr>world = world s, history = history s @
     [\<lparr>ev = GetAttr vds ''attr_matrix'', pre = world s, res = Inr am\<rparr>]\<rparr>"
  obtain r w' where c: "call E ''torch.FloatTensor'' [am] [] (world s) = (r, w')"
    by (cases "call E ''torch.FloatTensor'' [am] [] (world s)")
  show ?thesis
  proof (cases r)
    case (Inl e)
    with Inr c show ?thesis
      by (simp add: cell_train_def bnd_def get_attr_def ext_call_def)
  next
    case v: (Inr v)
    define s2 where "s2 = \<lparr>world = w', history = history s @
       [\<lparr>ev = GetAttr vds ''attr_matrix'', pre = world s, res = Inr am\<rparr>,
        \<lparr>ev = Call ''torch.FloatTensor'' [am] [], pre = world s, res = Inr v\<rparr>]\<rparr>"
    have run: "cell_train E zs tdl vdl vds opt dev s =
        for_each (py_range EPOCHS) (epoch_body E zs tdl vdl opt dev v) s2"
      using Inr c v by (simp add: cell_train_def bnd_def get_attr_def ext_call_def s2_def)
    from follows_loop [of E zs tdl vdl opt dev v]
    obtain l where l: "history (snd (for_each (py_range EPOCHS) (epoch_body E zs tdl vdl opt dev v) s2))
          = history s2 @ l"
      and p: "prefix (map ev l) (schedule zs tdl vdl opt dev v)"
      and d: "\<forall>x. fst (for_each (py_range EPOCHS) (epoch_body E zs tdl vdl opt dev v) s2) = Inr x
            \<longrightarrow> map ev l = schedule zs tdl vdl opt dev v"
      unfolding follows_def by blast
    show ?thesis
      apply (rule exI [of _ "\<lparr>ev = GetAttr vds ''attr_matrix'', pre = world s, res = Inr am\<rparr>"])
      apply (rule exI [of _ "\<lparr>ev = Call ''torch.FloatTensor'' [am] [], pre = world s, res = Inr v\<rparr> # l"])
      using l p d by (simp add: run s2_def)
  qed
qed

lemma notebook_split:
  "(\<exists>e. fst (preparation E s) = Inl e \<and> notebook E s = (Inl e, snd (preparation E s))) \<or>
   (\<exists>zs tdl vdl vds opt dev.
      fst (preparation E s) = Inr (zs, tdl, vdl, vds, opt, dev) \<and>
      notebook E s = cell_train E zs tdl vdl vds opt dev (snd (preparation E s)))"
  by (cases "preparation E s") (auto simp: notebook_def bnd_def split: sum.splits)

subsection \<open>Where the objects of the preparation come from\<close>

lemma returned_append: "returned (h @ k) e v \<longleftrightarrow> returned h e v \<or> returned k e v"
  by (auto simp: returned_def)

lemma returned_single: "returned [a] e v \<longleftrightarrow> ev a = e \<and> res a = Inr v"
  by (simp add: returned_def)

lemma bnd_InrE:
  assumes "bnd m f s = (Inr y, s')"
  obtains x s1 where "m s = (Inr x, s1)" and "f x s1 = (Inr y, s')"
  using assms by (cases "m s") (auto simp: bnd_def split: sum.splits)

lemma prod_runE:
  assumes "(case x of (a, b) \<Rightarrow> g a b) s = r"
  obtains a b where "x = (a, b)" and "g a b s = r"
  using assms by (cases x) simp

lemma ret_InrE:
  assumes "ret x s = (Inr y, s')"
  obtains "y = x" and "s' = s"
  using assms by (simp add: ret_def)

lemma ext_call_InrE:
  assumes "ext_call E f args kw s = (Inr v, s')"
  obtains a where "history s' = history s @ [a]" and "ev a = Call f args kw" and "res a = Inr v"
  using assms by (cases "call E f args kw (world s)") (auto simp: ext_call_def)

lemma get_attr_InrE:
  assumes "get_attr E x n s = (Inr v, s')"
  obtains a where "history s' = history s @ [a]" and "ev a = GetAttr x n" and "res a = Inr v"
  using assms by (auto simp: get_attr_def)

lemma method_InrE:
  assumes "method_call E x m args kw s = (Inr v, s')"
  obtains a where "history s' = history s @ [a]"
  using assms unfolding method_call_def by (rule ext_call_InrE)

lemma unpack2_grows:
  assumes "unpack2 E x s = (r, s')"
  obtains k where "history s' = history s @ k"
  using stops_unpack2 assms by (rule every_run_grows)

lemma items_grows:
  assumes "items E x s = (r, s')"
  obtains k where "history s' = history s @ k"
  using stops_items assms by (rule every_run_grows)

lemma select_grows:
  assumes "select_trainable E ps s = (r, s')"
  obtains k where "history s' = history s @ k"
  using stops_select assms by (rule every_run_grows)

lemma cell_datasets_flow:
  assumes "cell_datasets E s = (Inr (train_ds, valid_ds, train_dl, valid_dl), s')"
  shows "\<exists>k. history s' = history s @ k \<and> loaders_wired k train_ds valid_ds train_dl valid_dl"
  using assms unfolding cell_datasets_def
  apply (elim bnd_InrE ext_call_InrE ret_InrE)
  apply (simp add: loaders_wired_def returned_append returned_single train_dl_kwargs_def
      valid_dl_kwargs_def returned_def)
  done

lemma cell_units_flow:
  assumes "cell_units E train_ds features s = (Inr (semantic_unit, visual_fe), s')"
  shows "\<exists>k. history s' = history s @ k \<and> units_built k semantic_unit visual_fe"
  using assms unfolding cell_units_def
  apply (elim bnd_InrE ext_call_InrE get_attr_InrE method_InrE ret_InrE)
  apply (simp add: units_built_def returned_def ex_disj_distrib)
  done

lemma cell_model_flow:
  assumes "cell_model E features semantic semantic_unit visual_fe s = (Inr zs_model, s')"
  shows "\<exists>k. history s' = history s @ k \<and> model_wrapped k semantic_unit visual_fe zs_model"
  using assms unfolding cell_model_def
  apply (elim bnd_InrE prod_runE ext_call_InrE method_InrE unpack2_grows ret_InrE)
  apply (simp add: model_wrapped_def returned_def)
  done

lemma cell_optimizer_flow:
  assumes "cell_optimizer E zs_model s = (Inr optimizer, s')"
  shows "\<exists>k. history s' = history s @ k \<and> optimizer_built k optimizer"
  using assms unfolding cell_optimizer_def
  apply (elim bnd_InrE ext_call_InrE method_InrE items_grows select_grows)
  apply (simp add: optimizer_built_def returned_def ex_disj_distrib)
  done

lemma loaders_wired_left: "loaders_wired h a b c d \<Longrightarrow> loaders_wired (h @ k) a b c d"
  and loaders_wired_right: "loaders_wired k a b c d \<Longrightarrow> loaders_wired (h @ k) a b c d"
  by (simp_all add: loaders_wired_def returned_append)

lemma units_built_left: "units_built h a b \<Longrightarrow> units_built (h @ k) a b"
  and units_built_right: "units_built k a b \<Longrightarrow> units_built (h @ k) a b"
  unfolding units_built_def returned_append by blast+

lemma model_wrapped_left: "model_wrapped h a b c \<Longrightarrow> model_wrapped (h @ k) a b c"
  and model_wrapped_right: "model_wrapped k a b c \<Longrightarrow> model_wrapped (h @ k) a b c"
  by (simp_all add: model_wrapped_def returned_append)

lemma optimizer_built_left: "optimizer_built h a \<Longrightarrow> optimizer_built (h @ k) a"
  and optimizer_built_right: "optimizer_built k a \<Longrightarrow> optimizer_built (h @ k) a"
  unfolding optimizer_built_def returned_append by blast+

lemmas flow_left =
  loaders_wired_left units_built_left model_wrapped_left optimizer_built_left

lemmas flow_right =
  loaders_wired_right units_built_right model_wrapped_right optimizer_built_right

lemmas cell_grows =
  every_run_grows [OF stops_cells(1)] every_run_grows [OF stops_cells(2)]
  every_run_grows [OF stops_cells(3)] every_run_grows [OF stops_cells(4)]
  every_run_grows [OF stops_cells(5)] every_run_grows [OF stops_cells(6)]
  every_run_grows [OF stops_cells(7)] every_run_grows [OF stops_cells(8)]
  every_run_grows [OF stops_cells(9)]

lemma preparation_flow:
  assumes "preparation E s = (Inr (zs_model, train_dl, valid_dl, valid_ds, optimizer, device), s')"
  shows "\<exists>k. history s' = history s @ k \<and> prepared k zs_model train_dl valid_dl valid_ds optimizer"
  using assms unfolding preparation_def
  apply (elim bnd_InrE prod_runE ret_InrE)
  apply clarify
  apply (frule cell_datasets_flow, frule cell_units_flow, frule cell_model_flow,
      frule cell_optimizer_flow)
  apply (elim cell_grows exE conjE)
  apply (simp add: prepared_def)
  apply (intro exI conjI)
     apply ((rule flow_left, assumption) | assumption | rule flow_right)+
  done

subsection \<open>The shape of a run\<close>

lemma prefix_concat_map: "prefix xs ys \<Longrightarrow> prefix (concat (map g xs)) (concat (map g ys))"
  by (auto simp: prefix_def)

lemma prefix_filter_same: "prefix xs ys \<Longrightarrow> prefix (filter P xs) (filter P ys)"
  by (auto simp: prefix_def)

lemma calls_append [simp]: "calls (xs @ ys) = calls xs @ calls ys"
  by (simp add: calls_def)

lemma loop_calls_append [simp]: "loop_calls (xs @ ys) = loop_calls xs @ loop_calls ys"
  by (simp add: loop_calls_def)

lemma loop_loaders_append [simp]: "loop_loaders (xs @ ys) = loop_loaders xs @ loop_loaders ys"
  by (simp add: loop_loaders_def)

lemma evaluate_reprs_append [simp]:
  "evaluate_reprs (xs @ ys) = evaluate_reprs xs @ evaluate_reprs ys"
  by (simp add: evaluate_reprs_def)

lemma loop_calls_schedule: "loop_calls (schedule zs tdl vdl opt dev v) = epoch_schedule"
  by (simp add: loop_calls_def schedule_def epoch_events_def epoch_schedule_def loop_arg_def)

lemma loop_loaders_schedule:
  "loop_loaders (schedule zs tdl vdl opt dev v) = loader_schedule tdl vdl"
  by (simp add: loop_loaders_def schedule_def epoch_events_def loader_schedule_def loop_arg_def
      numeral_eq_Suc)

lemma evaluate_reprs_schedule:
  "evaluate_reprs (schedule zs tdl vdl opt dev v) = replicate 8 (Some v)"
  by (simp add: evaluate_reprs_def schedule_def epoch_events_def evaluate_repr_def
      numeral_eq_Suc)

lemma calls_schedule: "calls (schedule zs tdl vdl opt dev v) = loop_stages"
  by (simp add: calls_def schedule_def epoch_events_def loop_stages_def numeral_eq_Suc)

lemma length_schedule: "length (schedule zs tdl vdl opt dev v) = 16"
  by (simp add: schedule_def epoch_events_def)

lemma filter_loop_stages: "filter (\<lambda>f. f \<in> set stage_names) loop_stages = loop_stages"
  by (simp add: loop_stages_def stage_names_def numeral_eq_Suc)

lemma quiet_preparation:
  assumes "prefix (stages h) preparation_stages"
  shows "loop_calls (map ev h) = []" and "evaluate_reprs (map ev h) = []"
    and "loop_loaders (map ev h) = []"
proof -
  have none: "f \<noteq> ''zsl.engine.train_epoch'' \<and> f \<noteq> ''zsl.engine.evaluate''"
    if "a \<in> set h" and "ev a = Call f args kw" for a f args kw
  proof (rule ccontr)
    assume "\<not> ?thesis"
    then have st: "f \<in> set stage_names" and np: "f \<notin> set preparation_stages"
      by (auto simp: stage_names_def preparation_stages_def)
    from that have "f \<in> set (calls (map ev h))"
      by (force simp: calls_def)
    with st have "f \<in> set (stages h)"
      by (simp add: stages_def)
    with set_mono_prefix [OF assms] have "f \<in> set preparation_stages"
      by blast
    with np show False by simp
  qed
  show "loop_calls (map ev h) = []"
    using none by (auto simp: loop_calls_def loop_arg_def split: event.splits)
  show "evaluate_reprs (map ev h) = []"
    using none by (auto simp: evaluate_reprs_def evaluate_repr_def split: event.splits)
  show "loop_loaders (map ev h) = []"
    using none by (auto simp: loop_loaders_def loop_arg_def split: event.splits)
qed

lemma stages_quiet:
  "prefix (map ev q) [GetAttr vds ''attr_matrix'', Call ''torch.FloatTensor'' [am] []] \<Longrightarrow>
   stages q = [] \<and> loop_calls (map ev q) = [] \<and> evaluate_reprs (map ev q) = [] \<and>
   loop_loaders (map ev q) = []"
  by (auto simp: prefix_Cons stages_def calls_def stage_names_def loop_calls_def loop_arg_def
      evaluate_reprs_def evaluate_repr_def loop_loaders_def)

lemma stages_calls: "stages l = filter (\<lambda>f. f \<in> set stage_names) (calls (map ev l))"
  by (simp add: stages_def)

lemma notebook_run:
  "\<exists>h q l zs tdl vdl vds opt dev am v.
     history (snd (notebook E s)) = history s @ h @ q @ l \<and>
     prefix (stages h) preparation_stages \<and>
     (q = [] \<and> l = [] \<or>
      stages h = preparation_stages \<and> prepared h zs tdl vdl vds opt) \<and>
     prefix (map ev q) [GetAttr vds ''attr_matrix'', Call ''torch.FloatTensor'' [am] []] \<and>
     prefix (map ev l) (schedule zs tdl vdl opt dev v) \<and>
     (fst (notebook E s) = Inr () \<longrightarrow>
        stages h = preparation_stages \<and>
        map ev q = [GetAttr vds ''attr_matrix'', Call ''torch.FloatTensor'' [am] []] \<and>
        map res q = [Inr am, Inr v] \<and>
        map ev l = schedule zs tdl vdl opt dev v)"
proof -
  obtain h where h: "history (snd (preparation E s)) = history s @ h"
    and ph: "prefix (stages h) preparation_stages"
    and eh: "\<forall>x. fst (preparation E s) = Inr x \<longrightarrow> stages h = preparation_stages"
    using preparation_stages_run [of E s] by blast
  from notebook_split [of E s] show ?thesis
  proof (elim disjE exE conjE)
    fix e
    assume pf: "fst (preparation E s) = Inl e"
      and nf: "notebook E s = (Inl e, snd (preparation E s))"
    show ?thesis
          apply (rule exI [of _ "h"],
            rule exI [of _ "[]"],
            rule exI [of _ "[]"],
            rule exI [of _ "VNone"],
            rule exI [of _ "VNone"],
            rule exI [of _ "VNone"],
            rule exI [of _ "VNone"],
            rule exI [of _ "VNone"],
            rule exI [of _ "VNone"],
            rule exI [of _ "VNone"],
            rule exI [of _ "VNone"])
          using h ph pf nf by simp
  next
    fix zs tdl vdl vds opt dev
    assume ok: "fst (preparation E s) = Inr (zs, tdl, vdl, vds, opt, dev)"
      and nb: "notebook E s = cell_train E zs tdl vdl vds opt dev (snd (preparation E s))"
    from ok eh have sh: "stages h = preparation_stages" by simp
    from ok have "preparation E s = (Inr (zs, tdl, vdl, vds, opt, dev), snd (preparation E s))"
      by (cases "preparation E s") simp
    from preparation_flow [OF this] h have pr: "prepared h zs tdl vdl vds opt"
      by auto
    let ?t = "cell_train E zs tdl vdl vds opt dev (snd (preparation E s))"
    from cell_train_run [of E zs tdl vdl vds opt dev "snd (preparation E s)"]
    obtain a k where k: "history (snd ?t) = history (snd (preparation E s)) @ a # k"
      and a: "ev a = GetAttr vds ''attr_matrix''"
      and c: "case res a of
        Inl e \<Rightarrow> k = [] \<and> fst ?t = Inl e
      | Inr am \<Rightarrow>
          (\<exists>f l. k = f # l \<and> ev f = Call ''torch.FloatTensor'' [am] [] \<and>
             (case res f of
                Inl e \<Rightarrow> l = [] \<and> fst ?t = Inl e
              | Inr v \<Rightarrow>
                  prefix (map ev l) (schedule zs tdl vdl opt dev v) \<and>
                  (fst ?t = Inr () \<longrightarrow> map ev l = schedule zs tdl vdl opt dev v)))"
      by blast
    show ?thesis
    proof (cases "res a")
      case (Inl e)
      show ?thesis
          apply (rule exI [of _ "h"],
            rule exI [of _ "[a]"],
            rule exI [of _ "[]"],
            rule exI [of _ "zs"],
            rule exI [of _ "tdl"],
            rule exI [of _ "vdl"],
            rule exI [of _ "vds"],
            rule exI [of _ "opt"],
            rule exI [of _ "dev"],
            rule exI [of _ "VNone"],
            rule exI [of _ "VNone"])
          using c k a h nb sh pr Inl by simp
    next
      case (Inr am)
      with c obtain f l where kl: "k = f # l" and f: "ev f = Call ''torch.FloatTensor'' [am] []"
        and c': "case res f of
                Inl e \<Rightarrow> l = [] \<and> fst ?t = Inl e
              | Inr v \<Rightarrow>
                  prefix (map ev l) (schedule zs tdl vdl opt dev v) \<and>
                  (fst ?t = Inr () \<longrightarrow> map ev l = schedule zs tdl vdl opt dev v)"
        by auto
      show ?thesis
      proof (cases "res f")
        case (Inl e)
        show ?thesis
          apply (rule exI [of _ "h"],
            rule exI [of _ "[a, f]"],
            rule exI [of _ "[]"],
            rule exI [of _ "zs"],
            rule exI [of _ "tdl"],
            rule exI [of _ "vdl"],
            rule exI [of _ "vds"],
            rule exI [of _ "opt"],
            rule exI [of _ "dev"],
            rule exI [of _ "am"],
            rule exI [of _ "VNone"])
          using c' k kl a f h nb sh pr Inr Inl by simp
      next
        case v: (Inr v)
        show ?thesis
          apply (rule exI [of _ "h"],
            rule exI [of _ "[a, f]"],
            rule exI [of _ "l"],
            rule exI [of _ "zs"],
            rule exI [of _ "tdl"],
            rule exI [of _ "vdl"],
            rule exI [of _ "vds"],
            rule exI [of _ "opt"],
            rule exI [of _ "dev"],
            rule exI [of _ "am"],
            rule exI [of _ "v"])
          using c' k kl a f h nb sh pr Inr v by simp
      qed
    qed
  qed
qed

lemma trace_shape:
  obtains h q l zs tdl vdl vds opt dev am v where
    "trace E w = h @ q @ l"
    and "prefix (stages h) preparation_stages"
    and "q = [] \<and> l = [] \<or> stages h = preparation_stages \<and> prepared h zs tdl vdl vds opt"
    and "prefix (map ev q) [GetAttr vds ''attr_matrix'', Call ''torch.FloatTensor'' [am] []]"
    and "prefix (map ev l) (schedule zs tdl vdl opt dev v)"
    and "outcome E w = Inr () \<longrightarrow>
        stages h = preparation_stages \<and>
        map ev q = [GetAttr vds ''attr_matrix'', Call ''torch.FloatTensor'' [am] []] \<and>
        map res q = [Inr am, Inr v] \<and>
        map ev l = schedule zs tdl vdl opt dev v"
proof -
  have nil: "history \<lparr>world = w, history = []\<rparr> @ x = x" for x :: "'a entry list"
    by simp
  show thesis
    using notebook_run [of E "\<lparr>world = w, history = []\<rparr>", unfolded nil]
    apply -
    apply (elim exE conjE)
    apply (rule that [unfolded trace_def outcome_def]; assumption)
    done
qed

subsection \<open>The parameters of the optimizer\<close>
















subsection \<open>The loaders given to the loop\<close>

text \<open>
  Every call of \<^verbatim>\<open>train_epoch\<close> is given the loader built on the dataset that
  was constructed with \<^verbatim>\<open>load_unseen=False\<close>, and every call of
  \<^verbatim>\<open>evaluate\<close> the loader built on the dataset that was constructed with
  \<^verbatim>\<open>load_only_unseen=True\<close>. What the two flags select is decided by the
  constructor, which is not part of the script.
\<close>

lemma loop_loaders_wired:
  "\<exists>train_ds valid_ds train_dl valid_dl.
      (loop_loaders (map ev (trace E w)) = [] \<or>
       loaders_wired (trace E w) train_ds valid_ds train_dl valid_dl) \<and>
      prefix (loop_loaders (map ev (trace E w))) (loader_schedule train_dl valid_dl) \<and>
      (outcome E w = Inr () \<longrightarrow>
         loop_loaders (map ev (trace E w)) = loader_schedule train_dl valid_dl)"
proof -
  obtain h q l zs tdl vdl vds opt dev am v where
    t: "trace E w = h @ q @ l"
    and ph: "prefix (stages h) preparation_stages"
    and alt: "q = [] \<and> l = [] \<or> stages h = preparation_stages \<and> prepared h zs tdl vdl vds opt"
    and pq: "prefix (map ev q) [GetAttr vds ''attr_matrix'', Call ''torch.FloatTensor'' [am] []]"
    and pl: "prefix (map ev l) (schedule zs tdl vdl opt dev v)"
    and ok: "outcome E w = Inr () \<longrightarrow>
        stages h = preparation_stages \<and>
        map ev q = [GetAttr vds ''attr_matrix'', Call ''torch.FloatTensor'' [am] []] \<and>
        map res q = [Inr am, Inr v] \<and>
        map ev l = schedule zs tdl vdl opt dev v"
    by (rule trace_shape [of E w])
  have ll: "loop_loaders (map ev (trace E w)) = loop_loaders (map ev l)"
    using t quiet_preparation(3) [OF ph] stages_quiet [OF pq] by simp
  have "prefix (loop_loaders (map ev l)) (loop_loaders (schedule zs tdl vdl opt dev v))"
    using pl unfolding loop_loaders_def by (rule prefix_concat_map)
  then have p: "prefix (loop_loaders (map ev (trace E w))) (loader_schedule tdl vdl)"
    by (simp add: ll loop_loaders_schedule)
  have e: "outcome E w = Inr () \<longrightarrow>
      loop_loaders (map ev (trace E w)) = loader_schedule tdl vdl"
    using ok by (simp add: ll loop_loaders_schedule)
  have "\<exists>train_ds. loop_loaders (map ev (trace E w)) = [] \<or>
      loaders_wired (trace E w) train_ds vds tdl vdl"
  proof (cases "q = [] \<and> l = []")
    case True
    then have "loop_loaders (map ev l) = []" by (simp add: loop_loaders_def)
    with ll show ?thesis by simp
  next
    case False
    with alt obtain train_ds where "loaders_wired h train_ds vds tdl vdl"
      unfolding prepared_def by blast
    then have "loaders_wired (trace E w) train_ds vds tdl vdl"
      unfolding t by (rule loaders_wired_left)
    then show ?thesis by blast
  qed
  with p e show
    "\<exists>train_ds valid_ds train_dl valid_dl.
      (loop_loaders (map ev (trace E w)) = [] \<or>
       loaders_wired (trace E w) train_ds valid_ds train_dl valid_dl) \<and>
      prefix (loop_loaders (map ev (trace E w))) (loader_schedule train_dl valid_dl) \<and>
      (outcome E w = Inr () \<longrightarrow>
         loop_loaders (map ev (trace E w)) = loader_schedule train_dl valid_dl)"
    by blast
qed

subsection \<open>The runs of the two sample frameworks\<close>

lemma demo_returns: "outcome demo 0 = Inr ()"
  by code_simp

lemma faulty_raises: "outcome faulty 0 = Inl (Raised ''CUDA out of memory'')"
  by code_simp

section \<open>The claims\<close>

text \<open>
  C1. The script is a linear pipeline, run in this order: the datasets and their
  loaders are constructed, then the linear semantic unit and the identity visual
  module, then the ZeroShot model that wraps both, and then the epoch loop, in which
  every pass calls \<^verbatim>\<open>train_epoch\<close> and then \<^verbatim>\<open>evaluate\<close> with nothing in
  between. Every run passes the stages in this order, as far as it gets; a run that
  returns has passed them all, its history ends with exactly the sixteen calls of the
  loop, and the objects given to them are the ones the preparation built.
\<close>

theorem pipeline_order:
  "prefix (stages (trace E w)) pipeline \<and>
   (outcome E w = Inr () \<longrightarrow>
      stages (trace E w) = pipeline \<and>
      (\<exists>h l zs_model train_dl valid_dl valid_ds optimizer device semantic_repr.
         trace E w = h @ l \<and> stages h = preparation_stages \<and>
         prepared h zs_model train_dl valid_dl valid_ds optimizer \<and>
         map ev l = schedule zs_model train_dl valid_dl optimizer device semantic_repr))"
proof -
  obtain h q l zs tdl vdl vds opt dev am v where
    t: "trace E w = h @ q @ l"
    and ph: "prefix (stages h) preparation_stages"
    and alt: "q = [] \<and> l = [] \<or> stages h = preparation_stages \<and> prepared h zs tdl vdl vds opt"
    and pq: "prefix (map ev q) [GetAttr vds ''attr_matrix'', Call ''torch.FloatTensor'' [am] []]"
    and pl: "prefix (map ev l) (schedule zs tdl vdl opt dev v)"
    and ok: "outcome E w = Inr () \<longrightarrow>
        stages h = preparation_stages \<and>
        map ev q = [GetAttr vds ''attr_matrix'', Call ''torch.FloatTensor'' [am] []] \<and>
        map res q = [Inr am, Inr v] \<and>
        map ev l = schedule zs tdl vdl opt dev v"
    by (rule trace_shape [of E w])
  from stages_quiet [OF pq] have sq: "stages q = []" by simp
  have "prefix (calls (map ev l)) (calls (schedule zs tdl vdl opt dev v))"
    using pl unfolding calls_def by (rule prefix_concat_map)
  then have "prefix (stages l) (filter (\<lambda>f. f \<in> set stage_names) loop_stages)"
    unfolding stages_calls calls_schedule by (rule prefix_filter_same)
  then have sl: "prefix (stages l) loop_stages"
    by (simp add: filter_loop_stages)
  have 1: "prefix (stages (trace E w)) pipeline"
  proof (cases "stages h = preparation_stages")
    case True
    with sl sq t show ?thesis by (simp add: pipeline_def)
  next
    case False
    with alt have "q = []" "l = []" by simp_all
    with ph t show ?thesis by (simp add: pipeline_def)
  qed
  have 2: "stages (trace E w) = pipeline \<and>
      (\<exists>h l zs_model train_dl valid_dl valid_ds optimizer device semantic_repr.
         trace E w = h @ l \<and> stages h = preparation_stages \<and>
         prepared h zs_model train_dl valid_dl valid_ds optimizer \<and>
         map ev l = schedule zs_model train_dl valid_dl optimizer device semantic_repr)"
    if "outcome E w = Inr ()"
  proof -
    from that ok have sh: "stages h = preparation_stages"
      and eq: "map ev q = [GetAttr vds ''attr_matrix'', Call ''torch.FloatTensor'' [am] []]"
      and el: "map ev l = schedule zs tdl vdl opt dev v" by simp_all
    from eq have "q \<noteq> []" by auto
    with alt have "prepared h zs tdl vdl vds opt" by simp
    then have pr: "prepared (h @ q) zs tdl vdl vds opt"
      unfolding prepared_def by (blast intro: flow_left)
    from el have "stages l = loop_stages"
      by (simp add: stages_calls calls_schedule filter_loop_stages)
    with sh sq t have "stages (trace E w) = pipeline" by (simp add: pipeline_def)
    moreover have "trace E w = (h @ q) @ l" "stages (h @ q) = preparation_stages"
      using t sh sq by simp_all
    ultimately show ?thesis using pr el by blast
  qed
  from 1 2 show ?thesis by blast
qed

theorem pipeline_order_witness:
  "outcome demo 0 = Inr () \<and> stages (trace demo 0) = pipeline \<and>
   (\<exists>h l zs_model train_dl valid_dl valid_ds optimizer device semantic_repr.
      trace demo 0 = h @ l \<and> stages h = preparation_stages \<and>
      prepared h zs_model train_dl valid_dl valid_ds optimizer \<and>
      map ev l = schedule zs_model train_dl valid_dl optimizer device semantic_repr)"
  using pipeline_order [of demo 0] demo_returns by simp

text \<open>
  C6. The script has no exception handler: an exception raised by a call into the
  framework (or by reading an attribute of one of its objects) leaves the script
  unchanged, and nothing runs after it, no recovery and no retry. In the history of any
  run, an entry that raised is the last entry, and its exception is the outcome.
\<close>

theorem exceptions_propagate:
  "i < length (trace E w) \<Longrightarrow> res (trace E w ! i) = Inl e \<Longrightarrow>
   outcome E w = Inl e \<and> Suc i = length (trace E w)"
  using every_run_trace [OF stops_notebook, of E w]
  by (auto simp: stops_at_raise_def failure_def split: sum.splits)

theorem exceptions_propagate_witness:
  "69 < length (trace faulty 0) \<and>
   ev (trace faulty 0 ! 69) =
     Call ''zsl.engine.train_epoch'' []
       [(''model'', VObj 40), (''dl'', VObj 23), (''optimizer'', VObj 56),
        (''epoch'', VInt 2), (''print_freq'', VInt 300), (''device'', VObj 15)] \<and>
   res (trace faulty 0 ! 69) = Inl (Raised ''CUDA out of memory'') \<and>
   outcome faulty 0 = Inl (Raised ''CUDA out of memory'') \<and>
   Suc 69 = length (trace faulty 0)"
proof -
  have a: "69 < length (trace faulty 0)"
    by code_simp
  have b: "res (trace faulty 0 ! 69) = Inl (Raised ''CUDA out of memory'')"
    by code_simp
  have c: "ev (trace faulty 0 ! 69) =
     Call ''zsl.engine.train_epoch'' []
       [(''model'', VObj 40), (''dl'', VObj 23), (''optimizer'', VObj 56),
        (''epoch'', VInt 2), (''print_freq'', VInt 300), (''device'', VObj 15)]"
    by code_simp
  from exceptions_propagate [OF a b] a b c show ?thesis
    by (intro conjI) simp_all
qed

text \<open>
  C7. With \<^verbatim>\<open>EPOCHS = 8\<close> the loop makes exactly eight passes, giving
  \<^verbatim>\<open>train_epoch\<close> the epochs 0 to 7 in turn, and in every pass
  \<^verbatim>\<open>train_epoch\<close> is called before \<^verbatim>\<open>evaluate\<close>. The calls of the two
  functions in the history of a run that returns are exactly these sixteen; a run that
  raises has made the first of them, in this order.
\<close>

theorem epochs_0_to_7:
  "prefix (loop_calls (map ev (trace E w))) epoch_schedule \<and>
   (outcome E w = Inr () \<longrightarrow> loop_calls (map ev (trace E w)) = epoch_schedule)"
proof -
  obtain h q l zs tdl vdl vds opt dev am v where
    t: "trace E w = h @ q @ l"
    and ph: "prefix (stages h) preparation_stages"
    and alt: "q = [] \<and> l = [] \<or> stages h = preparation_stages \<and> prepared h zs tdl vdl vds opt"
    and pq: "prefix (map ev q) [GetAttr vds ''attr_matrix'', Call ''torch.FloatTensor'' [am] []]"
    and pl: "prefix (map ev l) (schedule zs tdl vdl opt dev v)"
    and ok: "outcome E w = Inr () \<longrightarrow>
        stages h = preparation_stages \<and>
        map ev q = [GetAttr vds ''attr_matrix'', Call ''torch.FloatTensor'' [am] []] \<and>
        map res q = [Inr am, Inr v] \<and>
        map ev l = schedule zs tdl vdl opt dev v"
    by (rule trace_shape [of E w])
  have "prefix (loop_calls (map ev l)) (loop_calls (schedule zs tdl vdl opt dev v))"
    using pl unfolding loop_calls_def by (rule prefix_concat_map)
  moreover have "loop_calls (map ev (trace E w)) = loop_calls (map ev l)"
    using t quiet_preparation(1) [OF ph] stages_quiet [OF pq] by simp
  ultimately show ?thesis
    using ok by (simp add: loop_calls_schedule)
qed

theorem epochs_0_to_7_witness:
  "outcome demo 0 = Inr () \<and>
   loop_calls (map ev (trace demo 0)) =
     [(''zsl.engine.train_epoch'', Some (VInt 0)), (''zsl.engine.evaluate'', None),
      (''zsl.engine.train_epoch'', Some (VInt 1)), (''zsl.engine.evaluate'', None),
      (''zsl.engine.train_epoch'', Some (VInt 2)), (''zsl.engine.evaluate'', None),
      (''zsl.engine.train_epoch'', Some (VInt 3)), (''zsl.engine.evaluate'', None),
      (''zsl.engine.train_epoch'', Some (VInt 4)), (''zsl.engine.evaluate'', None),
      (''zsl.engine.train_epoch'', Some (VInt 5)), (''zsl.engine.evaluate'', None),
      (''zsl.engine.train_epoch'', Some (VInt 6)), (''zsl.engine.evaluate'', None),
      (''zsl.engine.train_epoch'', Some (VInt 7)), (''zsl.engine.evaluate'', None)] \<and>
   outcome faulty 0 = Inl (Raised ''CUDA out of memory'') \<and>
   prefix (loop_calls (map ev (trace faulty 0))) epoch_schedule"
  using epochs_0_to_7 [of demo 0] epochs_0_to_7 [of faulty 0] demo_returns faulty_raises
  by (simp add: epoch_schedule_def)



text \<open>
  C9. The class representations \<^verbatim>\<open>semantic_repr\<close> are built once, from
  \<^verbatim>\<open>valid_ds.attr_matrix\<close>, before the loop, and are not assigned in it: every
  call of \<^verbatim>\<open>evaluate\<close> in every epoch is given the same value. In a run that
  returns, that value is what \<^verbatim>\<open>torch.FloatTensor\<close> returned for the attribute
  matrix of the validation dataset, just before the sixteen calls of the loop.
\<close>

theorem class_representations_fixed:
  "\<exists>v. (\<forall>x \<in> set (evaluate_reprs (map ev (trace E w))). x = Some v) \<and>
     (outcome E w = Inr () \<longrightarrow>
        (\<exists>h a f l valid_ds attr_matrix zs_model train_dl valid_dl optimizer device.
           trace E w = h @ [a, f] @ l \<and>
           returned h (Call ''zsl.data.AwAFeaturesDataset'' [VStr awa_root] valid_ds_kwargs)
             valid_ds \<and>
           ev a = GetAttr valid_ds ''attr_matrix'' \<and> res a = Inr attr_matrix \<and>
           ev f = Call ''torch.FloatTensor'' [attr_matrix] [] \<and> res f = Inr v \<and>
           evaluate_reprs (map ev h) = [] \<and>
           map ev l = schedule zs_model train_dl valid_dl optimizer device v \<and>
           evaluate_reprs (map ev l) = replicate 8 (Some v)))"
proof -
  obtain h q l zs tdl vdl vds opt dev am v where
    t: "trace E w = h @ q @ l"
    and ph: "prefix (stages h) preparation_stages"
    and alt: "q = [] \<and> l = [] \<or> stages h = preparation_stages \<and> prepared h zs tdl vdl vds opt"
    and pq: "prefix (map ev q) [GetAttr vds ''attr_matrix'', Call ''torch.FloatTensor'' [am] []]"
    and pl: "prefix (map ev l) (schedule zs tdl vdl opt dev v)"
    and ok: "outcome E w = Inr () \<longrightarrow>
        stages h = preparation_stages \<and>
        map ev q = [GetAttr vds ''attr_matrix'', Call ''torch.FloatTensor'' [am] []] \<and>
        map res q = [Inr am, Inr v] \<and>
        map ev l = schedule zs tdl vdl opt dev v"
    by (rule trace_shape [of E w])
  have eh: "evaluate_reprs (map ev h) = []"
    by (rule quiet_preparation(2) [OF ph])
  have "prefix (evaluate_reprs (map ev l)) (evaluate_reprs (schedule zs tdl vdl opt dev v))"
    using pl unfolding evaluate_reprs_def by (rule prefix_concat_map)
  then have "set (evaluate_reprs (map ev l)) \<subseteq> set (replicate 8 (Some v))"
    unfolding evaluate_reprs_schedule by (rule set_mono_prefix)
  moreover have "evaluate_reprs (map ev (trace E w)) = evaluate_reprs (map ev l)"
    using t eh stages_quiet [OF pq] by simp
  ultimately have 1: "\<forall>x \<in> set (evaluate_reprs (map ev (trace E w))). x = Some v"
    by (simp add: subset_iff)
  have 2: "\<exists>h a f l valid_ds attr_matrix zs_model train_dl valid_dl optimizer device.
           trace E w = h @ [a, f] @ l \<and>
           returned h (Call ''zsl.data.AwAFeaturesDataset'' [VStr awa_root] valid_ds_kwargs)
             valid_ds \<and>
           ev a = GetAttr valid_ds ''attr_matrix'' \<and> res a = Inr attr_matrix \<and>
           ev f = Call ''torch.FloatTensor'' [attr_matrix] [] \<and> res f = Inr v \<and>
           evaluate_reprs (map ev h) = [] \<and>
           map ev l = schedule zs_model train_dl valid_dl optimizer device v \<and>
           evaluate_reprs (map ev l) = replicate 8 (Some v)"
    if "outcome E w = Inr ()"
  proof -
    from that ok
    have eq: "map ev q = [GetAttr vds ''attr_matrix'', Call ''torch.FloatTensor'' [am] []]"
      and rq: "map res q = [Inr am, Inr v]"
      and el: "map ev l = schedule zs tdl vdl opt dev v" by simp_all
    from eq have "length (map ev q) = 2" by simp
    then have "length q = 2" by simp
    then obtain a f where q: "q = [a, f]"
      by (auto simp: numeral_2_eq_2 length_Suc_conv)
    with alt have "prepared h zs tdl vdl vds opt" by simp
    then have vd: "returned h (Call ''zsl.data.AwAFeaturesDataset'' [VStr awa_root]
        valid_ds_kwargs) vds"
      unfolding prepared_def loaders_wired_def by blast
    from el have "evaluate_reprs (map ev l) = replicate 8 (Some v)"
      by (simp add: evaluate_reprs_schedule)
    then show ?thesis
      apply (rule_tac x = h in exI, rule_tac x = a in exI, rule_tac x = f in exI,
          rule_tac x = l in exI, rule_tac x = vds in exI, rule_tac x = am in exI,
          rule_tac x = zs in exI, rule_tac x = tdl in exI, rule_tac x = vdl in exI,
          rule_tac x = opt in exI, rule_tac x = dev in exI)
      using q eq rq t eh el vd by simp
  qed
  from 1 2 show ?thesis by blast
qed

theorem class_representations_fixed_witness:
  "outcome demo 0 = Inr () \<and>
   evaluate_reprs (map ev (trace demo 0)) = replicate 8 (Some (VObj 57)) \<and>
   (\<exists>v. (\<forall>x \<in> set (evaluate_reprs (map ev (trace demo 0))). x = Some v) \<and>
      (\<exists>h a f l valid_ds attr_matrix zs_model train_dl valid_dl optimizer device.
         trace demo 0 = h @ [a, f] @ l \<and>
         returned h (Call ''zsl.data.AwAFeaturesDataset'' [VStr awa_root] valid_ds_kwargs)
           valid_ds \<and>
         ev a = GetAttr valid_ds ''attr_matrix'' \<and> res a = Inr attr_matrix \<and>
         ev f = Call ''torch.FloatTensor'' [attr_matrix] [] \<and> res f = Inr v \<and>
         evaluate_reprs (map ev h) = [] \<and>
         map ev l = schedule zs_model train_dl valid_dl optimizer device v \<and>
         evaluate_reprs (map ev l) = replicate 8 (Some v)))"
proof -
  have r: "evaluate_reprs (map ev (trace demo 0)) = replicate 8 (Some (VObj 57))"
    by code_simp
  from class_representations_fixed [of demo 0] demo_returns r show ?thesis
    by simp
qed

end
